theory Spec2Isabelle
  imports Main "HOL-Library.Sublist" "HOL-Library.Signed_Division"
begin

section \<open>UrbanPulse+: the screens' handlers and the standalone solver\<close>

text \<open>
  The application is a set of React components. Each component is modelled by a record of
  its \<open>useState\<close> cells and by one function per handler. A handler that calls
  \<open>setTimeout\<close> or \<open>setInterval\<close> adds an entry to the component's timer queue; the
  event loop fires the entry that is due first. Strings are lists of 8-bit code units;
  \<open>===\<close> on two strings is equality of the lists.
\<close>

subsection \<open>Timers\<close>

text \<open>
  A queue entry is the time at which the callback is due and the callback itself. Among
  entries that are due at the same time the one registered first fires first.
\<close>

fun earliest :: "(nat \<times> 't) list \<Rightarrow> (nat \<times> 't) option" where
  "earliest [] = None"
| "earliest (x # xs) =
     (case earliest xs of
        None \<Rightarrow> Some x
      | Some y \<Rightarrow> if fst y < fst x then Some y else Some x)"

subsection \<open>LoginScreen\<close>

record login_state =
  email :: string
  password :: string
  isLoading :: bool

datatype login_effect = Alert string string | OnLogin

text \<open>The two \<open>setTimeout\<close> callbacks of the screen; both run
  \<open>setIsLoading(false); onLogin();\<close>.\<close>

datatype login_task = GoogleTimeout | EmailTimeout

record login_world =
  ls :: login_state
  lclock :: nat
  ltimers :: "(nat \<times> login_task) list"
  llog :: "login_effect list"

definition LoginScreen_init :: login_world where
  "LoginScreen_init =
     \<lparr>ls = \<lparr>email = '''', password = '''', isLoading = False\<rparr>,
      lclock = 0, ltimers = [], llog = []\<rparr>"

definition setEmail :: "string \<Rightarrow> login_world \<Rightarrow> login_world" where
  "setEmail v w = w\<lparr>ls := (ls w)\<lparr>email := v\<rparr>\<rparr>"

definition setPassword :: "string \<Rightarrow> login_world \<Rightarrow> login_world" where
  "setPassword v w = w\<lparr>ls := (ls w)\<lparr>password := v\<rparr>\<rparr>"

definition handleGoogleLogin :: "login_world \<Rightarrow> login_world" where
  "handleGoogleLogin w =
     w\<lparr>ls := (ls w)\<lparr>isLoading := True\<rparr>,
       ltimers := ltimers w @ [(lclock w + 1500, GoogleTimeout)]\<rparr>"

definition handleEmailLogin :: "login_world \<Rightarrow> login_world" where
  "handleEmailLogin w =
     (if email (ls w) = ''testuser@example.com'' \<and> password (ls w) = ''Test@1234''
      then w\<lparr>ls := (ls w)\<lparr>isLoading := True\<rparr>,
             ltimers := ltimers w @ [(lclock w + 1000, EmailTimeout)]\<rparr>
      else w\<lparr>llog := llog w @
             [Alert ''Error''
                ''Invalid credentials. Use testuser@example.com and Test@1234'']\<rparr>)"

fun login_fire :: "login_task \<Rightarrow> login_world \<Rightarrow> login_world" where
  "login_fire GoogleTimeout w =
     w\<lparr>ls := (ls w)\<lparr>isLoading := False\<rparr>, llog := llog w @ [OnLogin]\<rparr>"
| "login_fire EmailTimeout w =
     w\<lparr>ls := (ls w)\<lparr>isLoading := False\<rparr>, llog := llog w @ [OnLogin]\<rparr>"

definition login_step :: "login_world \<Rightarrow> login_world option" where
  "login_step w =
     (case earliest (ltimers w) of
        None \<Rightarrow> None
      | Some (due, t) \<Rightarrow>
          Some (login_fire t
                  (w\<lparr>lclock := max (lclock w) due,
                     ltimers := remove1 (due, t) (ltimers w)\<rparr>)))"

text \<open>The event loop, run for at most \<open>n\<close> callbacks; it stops when no timer is left.\<close>

fun login_run :: "nat \<Rightarrow> login_world \<Rightarrow> login_world" where
  "login_run 0 w = w"
| "login_run (Suc n) w =
     (case login_step w of None \<Rightarrow> w | Some w' \<Rightarrow> login_run n w')"

text \<open>What a run added to the log of effects.\<close>

definition login_new :: "login_world \<Rightarrow> login_world \<Rightarrow> login_effect list" where
  "login_new w w' = drop (length (llog w)) (llog w')"

subsection \<open>App\<close>

record app_state =
  isLoggedIn :: bool

datatype stack_screen = Login | Main

definition App_init :: app_state where
  "App_init = \<lparr>isLoggedIn = False\<rparr>"

text \<open>The name of the \<open>Stack.Screen\<close> that \<open>App\<close> renders.\<close>

definition App :: "app_state \<Rightarrow> stack_screen" where
  "App s = (if \<not> isLoggedIn s then Login else Main)"

text \<open>The \<open>onLogin\<close> prop handed to \<open>LoginScreen\<close>: \<open>() => setIsLoggedIn(true)\<close>.
  It is the only place where \<open>App\<close> calls \<open>setIsLoggedIn\<close>.\<close>

definition onLogin :: "app_state \<Rightarrow> app_state" where
  "onLogin s = s\<lparr>isLoggedIn := True\<rparr>"

datatype app_op = CallOnLogin

fun app_apply :: "app_op \<Rightarrow> app_state \<Rightarrow> app_state" where
  "app_apply CallOnLogin s = onLogin s"

definition app_run :: "app_op list \<Rightarrow> app_state \<Rightarrow> app_state" where
  "app_run ops s = fold app_apply ops s"

text \<open>The login screen mounted in \<open>App\<close>: every \<open>OnLogin\<close> effect of the screen is a call of
  the \<open>onLogin\<close> prop.\<close>

fun app_effect :: "login_effect \<Rightarrow> app_state \<Rightarrow> app_state" where
  "app_effect OnLogin s = onLogin s"
| "app_effect (Alert t m) s = s"

definition app_after :: "login_effect list \<Rightarrow> app_state \<Rightarrow> app_state" where
  "app_after effs s = fold app_effect effs s"

subsection \<open>HomeScreen: the search sequence\<close>



text \<open>\<open>xs[i]\<close> of an array; \<open>None\<close> stands for \<open>undefined\<close>, the value of a read past the
  end.\<close>

definition element :: "'a list \<Rightarrow> nat \<Rightarrow> 'a option" where
  "element xs i = (if i < length xs then Some (xs ! i) else None)"

record home_state =
  searchQuery :: string
  isSearching :: bool
  progressMessage :: "string option"
  showResults :: bool
  isListening :: bool


text \<open>
  The timer callbacks of the screen. \<open>ProgressInterval k\<close> is the \<open>setInterval\<close> callback
  of one call of \<open>handleSearch\<close> whose captured variable \<open>messageIndex\<close> holds \<open>k\<close>;
  \<open>SearchTimeout\<close> is the \<open>setTimeout\<close> callback that ends the search;
  \<open>VoiceTimeout\<close> is the callback of \<open>handleVoiceInput\<close>.
\<close>

datatype home_task = ProgressInterval nat | SearchTimeout | VoiceTimeout

text \<open>What a render shows: the progress overlay (\<open>renderProgressOverlay\<close> returns
  \<open>null\<close> unless \<open>isSearching\<close>, and the text of \<open>progressMessage\<close> otherwise) and
  whether the result cards and the map are rendered (\<open>showResults\<close>).\<close>

datatype overlay = Hidden | Shown "string option"

record frame =
  at :: nat
  progress :: overlay
  results :: bool

record home_world =
  hs :: home_state
  hclock :: nat
  htimers :: "(nat \<times> home_task) list"
  hframes :: "frame list"






definition handleVoiceInput :: "home_world \<Rightarrow> home_world" where
  "handleVoiceInput w =
     w\<lparr>hs := (hs w)\<lparr>isListening := True\<rparr>,
       htimers := htimers w @ [(hclock w + 2000, VoiceTimeout)]\<rparr>"








subsection \<open>MapSection: numbers, the route request and the map document\<close>

text \<open>
  The numbers of the map are the four coordinates, their means and the coordinates of the
  route. They are decimal fractions, and the model keeps them exact: \<open>Dec m k\<close> is
  \<open>m / 10 ^ k\<close>. \<open>num_str\<close> is the conversion of a number to a string in a template
  literal and in \<open>JSON.stringify\<close>: no trailing zero in the fraction, no point when the
  fraction is zero. (The conversion of a double prints the shortest decimal that reads back as
  the same double; for the coordinates and means of this program that is the decimal fraction
  itself. Exponent notation, which the conversion uses from \<open>1e21\<close> and below \<open>1e-6\<close>, is
  outside the model.)
\<close>

datatype number = Dec int nat

fun num_add :: "number \<Rightarrow> number \<Rightarrow> number" where
  "num_add (Dec a j) (Dec b k) =
     (let s = max j k in Dec (a * 10 ^ (s - j) + b * 10 ^ (s - k)) s)"

fun num_half :: "number \<Rightarrow> number" where
  "num_half (Dec a k) = Dec (a * 5) (Suc k)"

fun normalize_dec :: "int \<Rightarrow> nat \<Rightarrow> int \<times> nat" where
  "normalize_dec m k =
     (if k = 0 \<or> m mod 10 \<noteq> 0 then (m, k) else normalize_dec (m div 10) (k - 1))"

declare normalize_dec.simps [simp del]

definition digit :: "nat \<Rightarrow> char" where
  "digit d = ''0123456789'' ! d"

fun nat_str :: "nat \<Rightarrow> string" where
  "nat_str n = (if n < 10 then [digit n] else nat_str (n div 10) @ [digit (n mod 10)])"

declare nat_str.simps [simp del]

definition frac_str :: "nat \<Rightarrow> nat \<Rightarrow> string" where
  "frac_str k f = (let ds = nat_str f in replicate (k - length ds) (CHR ''0'') @ ds)"

fun num_str :: "number \<Rightarrow> string" where
  "num_str (Dec m k) =
     (case normalize_dec m k of
        (m', k') \<Rightarrow>
          (let a = nat \<bar>m'\<bar>
           in (if m' < 0 then ''-'' else '''')
              @ nat_str (a div 10 ^ k')
              @ (if k' = 0 then '''' else ''.'' @ frac_str k' (a mod 10 ^ k'))))"

record point =
  latitude :: number
  longitude :: number

definition Delhi :: point where
  "Delhi = \<lparr>latitude = Dec 286139 4, longitude = Dec 772090 4\<rparr>"

definition Mandi :: point where
  "Mandi = \<lparr>latitude = Dec 317333 4, longitude = Dec 769333 4\<rparr>"

definition route_url :: string where
  "route_url =
     ''https://router.project-osrm.org/route/v1/driving/''
     @ num_str (longitude Delhi) @ '','' @ num_str (latitude Delhi) @ '';''
     @ num_str (longitude Mandi) @ '','' @ num_str (latitude Mandi)
     @ ''?geometries=geojson''"

text \<open>\<open>JSON.stringify\<close> of an array of arrays of numbers; an \<open>undefined\<close> element of an
  array is written \<open>null\<close>.\<close>

fun join_comma :: "string list \<Rightarrow> string" where
  "join_comma [] = ''''"
| "join_comma [s] = s"
| "join_comma (s # t # ss) = s @ '','' @ join_comma (t # ss)"

definition json_array :: "string list \<Rightarrow> string" where
  "json_array ss = ''['' @ join_comma ss @ '']''"

fun json_number :: "number option \<Rightarrow> string" where
  "json_number None = ''null''"
| "json_number (Some n) = num_str n"

definition JSON_stringify :: "number option list list \<Rightarrow> string" where
  "JSON_stringify xss = json_array (map (\<lambda>xs. json_array (map json_number xs)) xss)"

definition newline :: string where
  "newline = [CHR 0x0A]"

text \<open>A coordinate of the route is an array of numbers, longitude first.\<close>

definition generateMapHTML :: "number list list \<Rightarrow> string" where
  \<open>generateMapHTML routeCoords =
    (let routePolyline =
       (if length routeCoords > 0
        then ''var routeCoords = ''
             @ JSON_stringify (map (\<lambda>c. [element c 1, element c 0]) routeCoords) @ '';'' @ newline @
             ''         var polyline = L.polyline(routeCoords, {color: '#2E7D32', weight: 4}).addTo(map);''
        else '''')
     in newline @
       ''      <!DOCTYPE html>'' @ newline @
       ''      <html>'' @ newline @
       ''      <head>'' @ newline @
       ''        <meta name="viewport" content="width=device-width, initial-scale=1.0, maximum-scale=1.0, user-scalable=no" />'' @ newline @
       ''        <link rel="stylesheet" href="https://unpkg.com/leaflet@1.9.4/dist/leaflet.css" />'' @ newline @
       ''        <script src="https://unpkg.com/leaflet@1.9.4/dist/leaflet.js"></script>'' @ newline @
       ''        <style>'' @ newline @
       ''          body { margin: 0; padding: 0; }'' @ newline @
       ''          #map { width: 100%; height: 100vh; }'' @ newline @
       ''        </style>'' @ newline @
       ''      </head>'' @ newline @
       ''      <body>'' @ newline @
       ''        <div id="map"></div>'' @ newline @
       ''        <script>'' @ newline @
       ''          var map = L.map('map').setView(['' @ num_str (num_half (num_add (latitude Delhi) (latitude Mandi)))
         @ '', '' @ num_str (num_half (num_add (longitude Delhi) (longitude Mandi)))
         @ ''], 7);'' @ newline @
       ''          '' @ newline @
       ''          L.tileLayer('https://{s}.tile.openstreetmap.org/{z}/{x}/{y}.png', {'' @ newline @
       ''            attribution: '&copy; OpenStreetMap contributors','' @ newline @
       ''            maxZoom: 19'' @ newline @
       ''          }).addTo(map);'' @ newline @
       ''          '' @ newline @
       ''          var delhiMarker = L.marker(['' @ num_str (latitude Delhi) @ '', ''
         @ num_str (longitude Delhi) @ '']).addTo(map);'' @ newline @
       ''          delhiMarker.bindPopup('<b>Delhi</b>').openPopup();'' @ newline @
       ''          '' @ newline @
       ''          var mandiMarker = L.marker(['' @ num_str (latitude Mandi) @ '', ''
         @ num_str (longitude Mandi) @ '']).addTo(map);'' @ newline @
       ''          mandiMarker.bindPopup('<b>Mandi</b>');'' @ newline @
       ''          '' @ newline @
       ''          '' @ routePolyline @ newline @
       ''          '' @ newline @
       ''          '' @ (if length routeCoords > 0
            then ''map.fitBounds(polyline.getBounds(), {padding: [50, 50]});''
            else '''') @ newline @
       ''        </script>'' @ newline @
       ''      </body>'' @ newline @
       ''      </html>'' @ newline @
       ''    '')\<close>

text \<open>The document that \<open>generateMapHTML\<close> builds for the empty list of coordinates,
  written out.\<close>

definition html_without_route :: string where
  \<open>html_without_route =
     '''' @ newline @
     ''      <!DOCTYPE html>'' @ newline @
     ''      <html>'' @ newline @
     ''      <head>'' @ newline @
     ''        <meta name="viewport" content="width=device-width, initial-scale=1.0, maximum-scale=1.0, user-scalable=no" />'' @ newline @
     ''        <link rel="stylesheet" href="https://unpkg.com/leaflet@1.9.4/dist/leaflet.css" />'' @ newline @
     ''        <script src="https://unpkg.com/leaflet@1.9.4/dist/leaflet.js"></script>'' @ newline @
     ''        <style>'' @ newline @
     ''          body { margin: 0; padding: 0; }'' @ newline @
     ''          #map { width: 100%; height: 100vh; }'' @ newline @
     ''        </style>'' @ newline @
     ''      </head>'' @ newline @
     ''      <body>'' @ newline @
     ''        <div id="map"></div>'' @ newline @
     ''        <script>'' @ newline @
     ''          var map = L.map('map').setView([30.1736, 77.07115], 7);'' @ newline @
     ''          '' @ newline @
     ''          L.tileLayer('https://{s}.tile.openstreetmap.org/{z}/{x}/{y}.png', {'' @ newline @
     ''            attribution: '&copy; OpenStreetMap contributors','' @ newline @
     ''            maxZoom: 19'' @ newline @
     ''          }).addTo(map);'' @ newline @
     ''          '' @ newline @
     ''          var delhiMarker = L.marker([28.6139, 77.209]).addTo(map);'' @ newline @
     ''          delhiMarker.bindPopup('<b>Delhi</b>').openPopup();'' @ newline @
     ''          '' @ newline @
     ''          var mandiMarker = L.marker([31.7333, 76.9333]).addTo(map);'' @ newline @
     ''          mandiMarker.bindPopup('<b>Mandi</b>');'' @ newline @
     ''          '' @ newline @
     ''          '' @ newline @
     ''          '' @ newline @
     ''          '' @ newline @
     ''        </script>'' @ newline @
     ''      </body>'' @ newline @
     ''      </html>'' @ newline @
     ''    ''\<close>

text \<open>
  The state of \<open>MapSection\<close>: its two \<open>useState\<close> cells; the value of the dependency list
  \<open>[showResults]\<close> at the previous render, which React keeps to decide whether the effect
  runs (\<open>None\<close> before the first render); the number of requests that have not settled; and
  the log of what the component did to the outside.
\<close>

datatype map_effect = HttpGet string | ConsoleError

record map_state =
  routeCoordinates :: "number list list"
  mapHTML :: string
  deps :: "bool option"
  inflight :: nat
  mlog :: "map_effect list"

definition MapSection_init :: map_state where
  "MapSection_init =
     \<lparr>routeCoordinates = [], mapHTML = '''', deps = None, inflight = 0, mlog = []\<rparr>"

text \<open>
  How the request settles: the promise is rejected, or it resolves with a response whose
  \<open>data.routes\<close> is a list of routes, each given here by its \<open>geometry.coordinates\<close>.
\<close>

datatype axios_result = Rejected | Resolved "number list list list"

text \<open>\<open>fetchRoute\<close> up to its \<open>await\<close>: the request is sent.\<close>

definition fetchRoute_request :: "map_state \<Rightarrow> map_state" where
  "fetchRoute_request s = s\<lparr>mlog := mlog s @ [HttpGet route_url], inflight := inflight s + 1\<rparr>"

text \<open>
  \<open>fetchRoute\<close> after its \<open>await\<close>. A rejected promise throws; so does
  \<open>response.data.routes[0].geometry\<close> when the list of routes is empty. The \<open>catch\<close>
  block logs the error and builds the map for the empty list of coordinates.
\<close>

fun fetchRoute_resume :: "axios_result \<Rightarrow> map_state \<Rightarrow> map_state" where
  "fetchRoute_resume (Resolved (coords # routes)) s =
     s\<lparr>routeCoordinates := coords, mapHTML := generateMapHTML coords\<rparr>"
| "fetchRoute_resume (Resolved []) s =
     s\<lparr>mlog := mlog s @ [ConsoleError], mapHTML := generateMapHTML []\<rparr>"
| "fetchRoute_resume Rejected s =
     s\<lparr>mlog := mlog s @ [ConsoleError], mapHTML := generateMapHTML []\<rparr>"

text \<open>The body of the effect.\<close>

definition effect :: "bool \<Rightarrow> map_state \<Rightarrow> map_state" where
  "effect showResults' s = (if \<not> showResults' then s else fetchRoute_request s)"

text \<open>A render of \<open>MapSection\<close> with the prop \<open>showResults\<close>: the effect runs after the
  first render and after a render in which the dependency has changed.\<close>

definition MapSection_render :: "bool \<Rightarrow> map_state \<Rightarrow> map_state" where
  "MapSection_render showResults' s =
     (if deps s = Some showResults'
      then s
      else effect showResults' (s\<lparr>deps := Some showResults'\<rparr>))"

text \<open>What the component returns.\<close>

datatype map_view = Nothing | WebView string | Placeholder

definition MapSection_view :: "bool \<Rightarrow> map_state \<Rightarrow> map_view" where
  "MapSection_view showResults' s =
     (if \<not> showResults' then Nothing
      else if mapHTML s \<noteq> [] then WebView (mapHTML s) else Placeholder)"

text \<open>
  The events of the component: the parent renders it with a value of \<open>showResults\<close>, or a
  request that has not settled yet settles. The state change of a settled request makes React
  render the component again, with the props it had.
\<close>

datatype map_event = Render bool | Settle axios_result

definition rerender :: "map_state \<Rightarrow> map_state" where
  "rerender s = (case deps s of None \<Rightarrow> s | Some b \<Rightarrow> MapSection_render b s)"

fun map_step :: "map_event \<Rightarrow> map_state \<Rightarrow> map_state" where
  "map_step (Render b) s = MapSection_render b s"
| "map_step (Settle r) s =
     (if inflight s = 0 then s
      else rerender (fetchRoute_resume r (s\<lparr>inflight := inflight s - 1\<rparr>)))"

definition map_run :: "map_event list \<Rightarrow> map_state \<Rightarrow> map_state" where
  "map_run evs s = fold map_step evs s"

text \<open>The requests in a log; the values of \<open>showResults\<close> in a list of events; the number
  of changes from false to true in a list of values that follows the value \<open>prev\<close>.\<close>

fun requests :: "map_effect list \<Rightarrow> string list" where
  "requests [] = []"
| "requests (HttpGet u # es) = u # requests es"
| "requests (ConsoleError # es) = requests es"

fun renders :: "map_event list \<Rightarrow> bool list" where
  "renders [] = []"
| "renders (Render b # evs) = b # renders evs"
| "renders (Settle r # evs) = renders evs"

fun rising :: "bool \<Rightarrow> bool list \<Rightarrow> nat" where
  "rising prev [] = 0"
| "rising prev (b # bs) = (if b \<and> \<not> prev then 1 else 0) + rising b bs"

subsection \<open>TravelNewsScreen: the category filter\<close>

text \<open>An article of the constant list \<open>newsData\<close>. The fields \<open>id\<close> and \<open>image\<close> carry
  a prime here, the names being taken in HOL.\<close>

record article =
  id' :: nat
  title :: string
  summary :: string
  content :: string
  category :: string
  author :: string
  publishTime :: string
  readTime :: string
  image' :: string
  tags :: "string list"
  likes :: nat
  comments :: nat
  isBookmarked :: bool

text \<open>The \<open>id\<close> fields of the list \<open>categories\<close>, the values that the category buttons
  give to \<open>selectedCategory\<close>; its initial value is \<open>all\<close>.\<close>

definition category_ids :: "string list" where
  "category_ids = [''all'', ''environment'', ''safety'', ''traffic'', ''weather'']"

definition newsData :: "article list" where
  "newsData =
     [\<lparr>id' = 1,
       title = ''New Green Corridor Opens in Delhi'',
       summary = ''Dedicated cycling lanes connecting major parks and green spaces across the capital city.'',
       content = ''The Delhi government has inaugurated a new 15km green corridor connecting Lodhi Gardens to Central Park. This initiative aims to promote eco-friendly transportation and reduce carbon emissions in the city.'',
       category = ''environment'',
       author = ''Delhi Transport Authority'',
       publishTime = ''2 hours ago'',
       readTime = ''3 min read'',
       image' = ''https://images.unsplash.com/photo-1602407294553-68e1a74691dd?auto=format&fit=crop&w=800&q=60'',
       tags = [''Green Transport'', ''Delhi'', ''Cycling''],
       likes = 124,
       comments = 23,
       isBookmarked = False\<rparr>,
      \<lparr>id' = 2,
       title = ''Mandi Tourism Booms with Eco-Friendly Initiatives'',
       summary = ''Local government promotes sustainable travel with new eco-tourism packages.'',
       content = ''Mandi district has launched several eco-friendly tourism initiatives including electric vehicle rentals, solar-powered accommodations, and guided nature walks through pristine forests.'',
       category = ''environment'',
       author = ''Himachal Tourism Board'',
       publishTime = ''4 hours ago'',
       readTime = ''4 min read'',
       image' = ''https://images.unsplash.com/photo-1526778548025-fa2f459cd5c1?auto=format&fit=crop&w=800&q=60'',
       tags = [''Eco Tourism'', ''Mandi'', ''Sustainability''],
       likes = 89,
       comments = 15,
       isBookmarked = True\<rparr>,
      \<lparr>id' = 3,
       title = ''Weather Alert: Pleasant Conditions Expected'',
       summary = ''Perfect weather forecast for outdoor activities and travel across northern India.'',
       content = ''Meteorological department predicts clear skies and comfortable temperatures for the next week, making it ideal for road trips and outdoor adventures.'',
       category = ''weather'',
       author = ''India Meteorological Department'',
       publishTime = ''6 hours ago'',
       readTime = ''2 min read'',
       image' = ''https://images.unsplash.com/photo-1506744038136-46273834b3fb?auto=format&fit=crop&w=800&q=60'',
       tags = [''Weather'', ''Travel'', ''Forecast''],
       likes = 67,
       comments = 8,
       isBookmarked = False\<rparr>,
      \<lparr>id' = 4,
       title = ''Enhanced Safety Measures on NH44'',
       summary = ''New safety installations and improved lighting on the Delhi-Mandi highway route.'',
       content = ''The National Highways Authority has installed advanced safety barriers, improved street lighting, and emergency response stations along the NH44 corridor.'',
       category = ''safety'',
       author = ''National Highways Authority'',
       publishTime = ''8 hours ago'',
       readTime = ''3 min read'',
       image' = ''https://images.unsplash.com/photo-1587740896339-2e6d1a6936fc?auto=format&fit=crop&w=800&q=60'',
       tags = [''Safety'', ''NH44'', ''Highway''],
       likes = 156,
       comments = 31,
       isBookmarked = True\<rparr>,
      \<lparr>id' = 5,
       title = ''Traffic Optimization in Major Cities'',
       summary = ''Smart traffic management systems reduce congestion by 30% in urban areas.'',
       content = ''AI-powered traffic management systems have been successfully implemented in major cities, resulting in significant reduction in traffic congestion and improved air quality.'',
       category = ''traffic'',
       author = ''Smart City Initiative'',
       publishTime = ''12 hours ago'',
       readTime = ''5 min read'',
       image' = ''https://images.unsplash.com/photo-1544197150-b99a580bb7a8?auto=format&fit=crop&w=800&q=60'',
       tags = [''Smart City'', ''AI'', ''Traffic Management''],
       likes = 203,
       comments = 45,
       isBookmarked = False\<rparr>,
      \<lparr>id' = 6,
       title = ''Electric Vehicle Charging Stations Expand'',
       summary = ''New EV charging infrastructure makes long-distance electric travel more feasible.'',
       content = ''Over 200 new electric vehicle charging stations have been installed along major highways, making electric vehicle travel more convenient and accessible.'',
       category = ''environment'',
       author = ''Electric Vehicle Council'',
       publishTime = ''1 day ago'',
       readTime = ''4 min read'',
       image' = ''https://images.unsplash.com/photo-1615906658185-10233b1b87b7?auto=format&fit=crop&w=800&q=60'',
       tags = [''Electric Vehicles'', ''Infrastructure'', ''Sustainability''],
       likes = 178,
       comments = 29,
       isBookmarked = True\<rparr>]"

definition filteredNews :: "string \<Rightarrow> article list" where
  "filteredNews selectedCategory =
     (if selectedCategory = ''all''
      then newsData
      else filter (\<lambda>item. category item = selectedCategory) newsData)"

subsection \<open>SettingsScreen: the toggles\<close>

text \<open>
  The settings object is a map from property names to booleans. Reading a property that the
  object does not have gives \<open>undefined\<close>, whose negation is \<open>true\<close>.
\<close>

type_synonym settings = "string \<rightharpoonup> bool"

definition settings_keys :: "string list" where
  "settings_keys =
     [''highSafetyMode'', ''accessibilityMode'', ''personalization'', ''notifications'',
      ''locationServices'', ''dataUsage'', ''darkMode'']"

definition settings_init :: settings where
  "settings_init =
     [''highSafetyMode'' \<mapsto> True,
      ''accessibilityMode'' \<mapsto> False,
      ''personalization'' \<mapsto> True,
      ''notifications'' \<mapsto> True,
      ''locationServices'' \<mapsto> True,
      ''dataUsage'' \<mapsto> False,
      ''darkMode'' \<mapsto> False]"

definition js_not :: "bool option \<Rightarrow> bool" where
  "js_not v = (case v of None \<Rightarrow> True | Some b \<Rightarrow> \<not> b)"

text \<open>The updater that \<open>handleToggle\<close> passes to \<open>setSettings\<close>:
  \<open>prev => ({...prev, [setting]: !prev[setting]})\<close>.\<close>

definition handleToggle :: "string \<Rightarrow> settings \<Rightarrow> settings" where
  "handleToggle setting prev = prev(setting \<mapsto> js_not (prev setting))"

subsection \<open>The standalone solver\<close>

text \<open>
  A value of type \<open>int\<close> is an integer from \<open>INT_MIN\<close> to \<open>INT_MAX\<close>. A test case is
  the array \<open>a\<close>; the second array of the input is read and discarded. Undefined behaviour
  (the remainder of \<open>INT_MIN\<close> by \<open>-1\<close>, an index outside the table) is an error of the
  model.
\<close>

text \<open>The constant \<open>MAX\<close> of the program.\<close>

definition MAX_val :: nat where
  "MAX_val = 200000"

definition INT_MAX :: int where
  "INT_MAX = 2147483647"

definition INT_MIN :: int where
  "INT_MIN = - 2147483648"

datatype solver_error = Overflow | OutOfBounds

text \<open>
  \<open>std::__gcd\<close> of the C++ library is Euclid's loop
  \<open>while (n != 0) { t = m % n; m = n; n = t; } return m;\<close>
  with the remainder of C++, which truncates towards zero (\<open>smod\<close>).
\<close>

function std_gcd :: "int \<Rightarrow> int \<Rightarrow> solver_error + int" where
  "std_gcd m n =
     (if n = 0 then Inr m
      else if m = INT_MIN \<and> n = - 1 then Inl Overflow
      else std_gcd n (m smod n))"
  by pat_completeness auto
termination
  by (relation "measure (\<lambda>(m, n). nat \<bar>n\<bar>)")
    (auto simp: signed_modulo_int_def abs_mult abs_sgn_eq)

declare std_gcd.simps [simp del]

text \<open>The test \<open>__gcd(a[i], a[j]) > 1\<close>, where it is defined.\<close>

definition common_divisor :: "int \<Rightarrow> int \<Rightarrow> bool" where
  "common_divisor x y = (case std_gcd x y of Inl e \<Rightarrow> False | Inr g \<Rightarrow> g > 1)"

text \<open>The two loops that look for a pair with a common divisor; both stop as soon as
  \<open>ok\<close> is set.\<close>

function pairs_inner :: "int list \<Rightarrow> nat \<Rightarrow> nat \<Rightarrow> bool \<Rightarrow> solver_error + bool" where
  "pairs_inner a i j ok =
     (if j < length a \<and> \<not> ok
      then (case std_gcd (a ! i) (a ! j) of
              Inl e \<Rightarrow> Inl e
            | Inr g \<Rightarrow> pairs_inner a i (j + 1) (if g > 1 then True else ok))
      else Inr ok)"
  by pat_completeness auto
termination
  by (relation "measure (\<lambda>(a, i, j, ok). length a - j)") auto

declare pairs_inner.simps [simp del]

function pairs_outer :: "int list \<Rightarrow> nat \<Rightarrow> bool \<Rightarrow> solver_error + bool" where
  "pairs_outer a i ok =
     (if i < length a \<and> \<not> ok
      then (case pairs_inner a i (i + 1) ok of
              Inl e \<Rightarrow> Inl e
            | Inr ok' \<Rightarrow> pairs_outer a (i + 1) ok')
      else Inr ok)"
  by pat_completeness auto
termination
  by (relation "measure (\<lambda>(a, i, ok). length a - i)") auto

declare pairs_outer.simps [simp del]

text \<open>The table of frequencies \<open>f\<close> has \<open>MAX + 2\<close> entries. \<open>f[x]++\<close> for an \<open>x\<close>
  outside the table is undefined behaviour; the model returns an error.\<close>

fun count_values :: "int list \<Rightarrow> int list \<Rightarrow> solver_error + int list" where
  "count_values [] f = Inr f"
| "count_values (x # xs) f =
     (if 0 \<le> x \<and> nat x < length f
      then count_values xs (f[nat x := f ! nat x + 1])
      else Inl OutOfBounds)"

text \<open>
  The loop over the multiples \<open>m\<close> of \<open>p\<close>: for each value of the array equal to \<open>m\<close>
  a cost 0, else for each value equal to \<open>m - 1\<close> a cost 1, else for each value equal to
  \<open>m - 2\<close> a cost 2. The counters \<open>p\<close> and \<open>m\<close> are at least 2 and are modelled by natural
  numbers; every call has \<open>p \<ge> 2\<close>.
\<close>

function multiples_loop :: "nat \<Rightarrow> nat \<Rightarrow> int list \<Rightarrow> int list \<Rightarrow> int list" where
  "multiples_loop p m c f =
     (if m \<le> MAX_val \<and> 0 < p
      then multiples_loop p (m + p)
             (c @ (if f ! m \<noteq> 0 then replicate (nat (f ! m)) 0
                   else if m - 1 > 0 \<and> f ! (m - 1) \<noteq> 0 then replicate (nat (f ! (m - 1))) 1
                   else if m - 2 > 0 \<and> f ! (m - 2) \<noteq> 0 then replicate (nat (f ! (m - 2))) 2
                   else []))
             f
      else c)"
  by pat_completeness auto
termination
  by (relation "measure (\<lambda>(p, m, c, f). MAX_val + 1 - m)") auto

declare multiples_loop.simps [simp del]

text \<open>The loop over \<open>p\<close> from 2 to \<open>MAX\<close>. The second component of the result counts the
  iterations that were executed.\<close>

function minimize_loop :: "nat \<Rightarrow> int \<Rightarrow> nat \<Rightarrow> int list \<Rightarrow> int \<times> nat" where
  "minimize_loop p ans iterations f =
     (if p \<le> MAX_val
      then (let c = multiples_loop p p [] f
            in minimize_loop (p + 1)
                 (if length c \<ge> 2 then min ans (sort c ! 0 + sort c ! 1) else ans)
                 (iterations + 1) f)
      else (ans, iterations))"
  by pat_completeness auto
termination
  by (relation "measure (\<lambda>(p, ans, iterations, f). MAX_val + 1 - p)") auto

declare minimize_loop.simps [simp del]

text \<open>One test case: the number printed and the number of iterations of the loop over
  \<open>p\<close>.\<close>

definition solve_case :: "int list \<Rightarrow> solver_error + int \<times> nat" where
  "solve_case a =
     (case pairs_outer a 0 False of
        Inl e \<Rightarrow> Inl e
      | Inr ok \<Rightarrow>
          if ok then Inr (0, 0)
          else (case count_values a (replicate (MAX_val + 2) 0) of
                  Inl e \<Rightarrow> Inl e
                | Inr f \<Rightarrow> Inr (minimize_loop 2 INT_MAX 0 f)))"

text \<open>The program: one line of output per test case. A test case is given by its two
  arrays.\<close>

definition solver_main :: "(int list \<times> int list) list \<Rightarrow> (solver_error + int) list" where
  "solver_main cases = map (\<lambda>(a, b). map_sum id fst (solve_case a)) cases"

section \<open>Properties\<close>

subsection \<open>LoginScreen and App\<close>

lemma earliest_single: "earliest [x] = Some x" by simp

lemma login_step_idle: "ltimers w = [] \<Longrightarrow> login_step w = None"
  by (simp add: login_step_def)

lemma login_run_idle: "ltimers w = [] \<Longrightarrow> login_run n w = w"
  by (cases n) (simp_all add: login_step_idle)

lemma handleEmailLogin_reject:
  "\<not> (email (ls w) = ''testuser@example.com'' \<and> password (ls w) = ''Test@1234'') \<Longrightarrow>
   handleEmailLogin w = w\<lparr>llog := llog w @
             [Alert ''Error''
                ''Invalid credentials. Use testuser@example.com and Test@1234'']\<rparr>"
  unfolding handleEmailLogin_def by (simp only: if_False)

lemma handleEmailLogin_accept:
  "email (ls w) = ''testuser@example.com'' \<Longrightarrow> password (ls w) = ''Test@1234'' \<Longrightarrow>
   handleEmailLogin w = w\<lparr>ls := (ls w)\<lparr>isLoading := True\<rparr>,
             ltimers := ltimers w @ [(lclock w + 1000, EmailTimeout)]\<rparr>"
  unfolding handleEmailLogin_def by (simp only: simp_thms if_True)

lemma login_run_email_accept:
  assumes "ltimers w = []" "email (ls w) = ''testuser@example.com''" "password (ls w) = ''Test@1234''"
  shows "login_run (Suc n) (handleEmailLogin w) =
     w\<lparr>ls := (ls w)\<lparr>isLoading := False\<rparr>, lclock := lclock w + 1000, llog := llog w @ [OnLogin]\<rparr>"
proof -
  have "login_step (handleEmailLogin w) =
     Some (w\<lparr>ls := (ls w)\<lparr>isLoading := False\<rparr>, lclock := lclock w + 1000, llog := llog w @ [OnLogin], ltimers := []\<rparr>)"
    using assms by (simp add: handleEmailLogin_accept login_step_def)
  then show ?thesis using assms(1) by (simp add: login_run_idle)
qed

text \<open>
  C1. Email login from an idle login screen (no timer pending): \<open>onLogin\<close> is eventually
  invoked if and only if the email field is exactly \<open>testuser@example.com\<close> and the password
  field is exactly \<open>Test@1234\<close>. With these credentials the only effect is the call of
  \<open>onLogin\<close>; with any other pair the only effect, however long the event loop runs, is the
  error alert, and \<open>onLogin\<close> is not invoked.
\<close>

theorem handleEmailLogin_outcome:
  assumes "ltimers w = []"
  shows "((\<exists>n. OnLogin \<in> set (login_new w (login_run n (handleEmailLogin w)))) \<longleftrightarrow>
            email (ls w) = ''testuser@example.com'' \<and> password (ls w) = ''Test@1234'')
       \<and> (email (ls w) = ''testuser@example.com'' \<and> password (ls w) = ''Test@1234'' \<longrightarrow>
            (\<forall>n. login_new w (login_run (Suc n) (handleEmailLogin w)) = [OnLogin]))
       \<and> (\<not> (email (ls w) = ''testuser@example.com'' \<and> password (ls w) = ''Test@1234'') \<longrightarrow>
            (\<forall>n. login_new w (login_run n (handleEmailLogin w)) =
                   [Alert ''Error''
                      ''Invalid credentials. Use testuser@example.com and Test@1234'']))"
proof (cases "email (ls w) = ''testuser@example.com'' \<and> password (ls w) = ''Test@1234''")
  case True
  then have r: "\<And>n. login_new w (login_run (Suc n) (handleEmailLogin w)) = [OnLogin]"
    using assms by (simp add: login_run_email_accept login_new_def del: login_run.simps)
  from r [of 0] have "\<exists>n. OnLogin \<in> set (login_new w (login_run n (handleEmailLogin w)))"
    by (intro exI [of _ "Suc 0"]) simp
  with True r show ?thesis by blast
next
  case False
  have "\<And>n. login_run n (handleEmailLogin w) = w\<lparr>llog := llog w @
             [Alert ''Error''
                ''Invalid credentials. Use testuser@example.com and Test@1234'']\<rparr>"
    using assms False by (simp add: handleEmailLogin_reject login_run_idle)
  then have r: "\<And>n. login_new w (login_run n (handleEmailLogin w)) =
                   [Alert ''Error''
                      ''Invalid credentials. Use testuser@example.com and Test@1234'']"
    by (simp add: login_new_def)
  with False show ?thesis by (simp del: login_run.simps)
qed

theorem handleEmailLogin_outcome_witness:
  "(\<exists>n. OnLogin \<in> set (login_new
        (setPassword ''Test@1234'' (setEmail ''testuser@example.com'' LoginScreen_init))
        (login_run n (handleEmailLogin
           (setPassword ''Test@1234'' (setEmail ''testuser@example.com'' LoginScreen_init))))))
   \<and> (\<forall>n. login_new (setPassword ''test@1234'' (setEmail ''testuser@example.com'' LoginScreen_init))
        (login_run n (handleEmailLogin
           (setPassword ''test@1234'' (setEmail ''testuser@example.com'' LoginScreen_init)))) =
        [Alert ''Error'' ''Invalid credentials. Use testuser@example.com and Test@1234''])"
  using handleEmailLogin_outcome
          [of "setPassword ''Test@1234'' (setEmail ''testuser@example.com'' LoginScreen_init)"]
        handleEmailLogin_outcome
          [of "setPassword ''test@1234'' (setEmail ''testuser@example.com'' LoginScreen_init)"]
  by (simp add: setPassword_def setEmail_def LoginScreen_init_def)

lemma login_run_google:
  assumes "ltimers w = []"
  shows "login_run (Suc n) (handleGoogleLogin w) =
     w\<lparr>ls := (ls w)\<lparr>isLoading := False\<rparr>, lclock := lclock w + 1500, llog := llog w @ [OnLogin]\<rparr>"
proof -
  have "login_step (handleGoogleLogin w) =
     Some (w\<lparr>ls := (ls w)\<lparr>isLoading := False\<rparr>, lclock := lclock w + 1500, llog := llog w @ [OnLogin], ltimers := []\<rparr>)"
    using assms by (simp add: handleGoogleLogin_def login_step_def)
  then show ?thesis using assms(1) by (simp add: login_run_idle)
qed

text \<open>
  C8. Google login: the effects and the loading flag after \<open>handleGoogleLogin\<close> are the same
  whatever the email and password fields hold (the empty strings included); once the timer has
  fired the only effect is the call of \<open>onLogin\<close>, and \<open>App\<close> shows the main tabs. No
  credential is compared.
\<close>

theorem handleGoogleLogin_ignores_credentials:
  assumes "ltimers w = []"
  shows "login_new (setPassword p (setEmail e w))
             (login_run n (handleGoogleLogin (setPassword p (setEmail e w))))
           = login_new w (login_run n (handleGoogleLogin w))
       \<and> isLoading (ls (login_run n (handleGoogleLogin (setPassword p (setEmail e w)))))
           = isLoading (ls (login_run n (handleGoogleLogin w)))
       \<and> login_new w (login_run (Suc n) (handleGoogleLogin w)) = [OnLogin]
       \<and> App (app_after (login_new w (login_run (Suc n) (handleGoogleLogin w))) App_init) = Main"
proof -
  let ?w' = "setPassword p (setEmail e w)"
  have idle: "ltimers ?w' = []" using assms by (simp add: setPassword_def setEmail_def)
  have log: "llog ?w' = llog w" by (simp add: setPassword_def setEmail_def)
  have a: "login_new w (login_run (Suc n) (handleGoogleLogin w)) = [OnLogin]" for n
    by (simp add: login_run_google [OF assms] login_new_def del: login_run.simps)
  have b: "login_new ?w' (login_run (Suc n) (handleGoogleLogin ?w')) = [OnLogin]" for n
    by (simp add: login_run_google [OF idle] login_new_def del: login_run.simps)
  have c: "isLoading (ls (login_run (Suc n) (handleGoogleLogin w))) = False" for n
    by (simp add: login_run_google [OF assms] del: login_run.simps)
  have d: "isLoading (ls (login_run (Suc n) (handleGoogleLogin ?w'))) = False" for n
    by (simp add: login_run_google [OF idle] del: login_run.simps)
  have z: "login_new ?w' (login_run 0 (handleGoogleLogin ?w')) = login_new w (login_run 0 (handleGoogleLogin w))
     \<and> isLoading (ls (login_run 0 (handleGoogleLogin ?w'))) = isLoading (ls (login_run 0 (handleGoogleLogin w)))"
    by (simp add: handleGoogleLogin_def login_new_def setPassword_def setEmail_def)
  have e: "App (app_after [OnLogin] App_init) = Main"
    by (simp add: App_def app_after_def onLogin_def App_init_def)
  show ?thesis
  proof (cases n)
    case 0
    with z a [of 0] e show ?thesis by (simp del: login_run.simps)
  next
    case (Suc m)
    with a b c d e show ?thesis by (simp del: login_run.simps)
  qed
qed

theorem handleGoogleLogin_ignores_credentials_witness:
  "login_new (setPassword ''x'' (setEmail ''nobody'' LoginScreen_init))
             (login_run 1 (handleGoogleLogin (setPassword ''x'' (setEmail ''nobody'' LoginScreen_init))))
           = login_new LoginScreen_init (login_run 1 (handleGoogleLogin LoginScreen_init))
   \<and> login_new LoginScreen_init (login_run 1 (handleGoogleLogin LoginScreen_init)) = [OnLogin]"
  using handleGoogleLogin_ignores_credentials [of LoginScreen_init "''x''" "''nobody''" 1]
        handleGoogleLogin_ignores_credentials [of LoginScreen_init "''x''" "''nobody''" 0]
  by (simp add: LoginScreen_init_def del: login_run.simps)

lemma app_run_logged_in: "isLoggedIn (app_run ops s) \<longleftrightarrow> isLoggedIn s \<or> ops \<noteq> []"
  unfolding app_run_def
proof (induction ops arbitrary: s)
  case Nil
  show ?case by simp
next
  case (Cons a ops)
  show ?case by (cases a) (simp add: Cons.IH onLogin_def)
qed

text \<open>
  C6. \<open>App\<close> renders the \<open>Login\<close> screen exactly when \<open>isLoggedIn\<close> is false and the
  \<open>Main\<close> tabs exactly when it is true. The flag starts false; the only operation of \<open>App\<close>
  on it is the \<open>onLogin\<close> callback, which sets it to true, so after any sequence of operations
  the flag is true exactly if it was true before or an operation ran, and it is never set back to
  false.
\<close>

theorem App_switches_on_isLoggedIn:
  "(App s = Login \<longleftrightarrow> \<not> isLoggedIn s)
   \<and> (App s = Main \<longleftrightarrow> isLoggedIn s)
   \<and> \<not> isLoggedIn App_init
   \<and> isLoggedIn (onLogin s)
   \<and> (isLoggedIn (app_run ops s) \<longleftrightarrow> isLoggedIn s \<or> ops \<noteq> [])
   \<and> (isLoggedIn s \<longrightarrow> App (app_run ops s) = Main)"
  using app_run_logged_in [of ops s]
  by (simp add: App_def onLogin_def App_init_def)

theorem App_switches_on_isLoggedIn_witness:
  "App App_init = Login \<and> App (app_run [CallOnLogin] App_init) = Main
   \<and> App (app_run [CallOnLogin, CallOnLogin] (onLogin App_init)) = Main"
  using App_switches_on_isLoggedIn [of App_init "[]"]
        App_switches_on_isLoggedIn [of App_init "[CallOnLogin]"]
        App_switches_on_isLoggedIn [of "onLogin App_init" "[CallOnLogin, CallOnLogin]"]
  by (simp add: App_def app_run_def onLogin_def App_init_def)

subsection \<open>HomeScreen: the search sequence\<close>














subsection \<open>MapSection\<close>

lemma nat_str_digit: "n < 10 \<Longrightarrow> nat_str n = [digit n]"
  by (subst nat_str.simps) simp

lemma nat_str_more: "\<not> n < 10 \<Longrightarrow> nat_str n = nat_str (n div 10) @ [digit (n mod 10)]"
  by (subst nat_str.simps) simp

lemma normalize_dec_stop: "k = 0 \<or> m mod 10 \<noteq> 0 \<Longrightarrow> normalize_dec m k = (m, k)"
  by (subst normalize_dec.simps) simp

lemma normalize_dec_strip:
  "\<not> (k = 0 \<or> m mod 10 \<noteq> 0) \<Longrightarrow> normalize_dec m k = normalize_dec (m div 10) (k - 1)"
  by (subst normalize_dec.simps) simp

lemmas num_eval =
  nat_str_digit nat_str_more normalize_dec_stop normalize_dec_strip digit_def frac_str_def
  Delhi_def Mandi_def

lemma str_latitude_Delhi: "num_str (latitude Delhi) = ''28.6139''"
  by (simp add: num_eval)

lemma str_longitude_Delhi: "num_str (longitude Delhi) = ''77.209''"
  by (simp add: num_eval)

lemma str_latitude_Mandi: "num_str (latitude Mandi) = ''31.7333''"
  by (simp add: num_eval)

lemma str_longitude_Mandi: "num_str (longitude Mandi) = ''76.9333''"
  by (simp add: num_eval)

lemma str_mean_latitude:
  "num_str (num_half (num_add (latitude Delhi) (latitude Mandi))) = ''30.1736''"
  by (simp add: num_eval)

lemma str_mean_longitude:
  "num_str (num_half (num_add (longitude Delhi) (longitude Mandi))) = ''77.07115''"
  by (simp add: num_eval)

lemmas str_coordinates =
  str_latitude_Delhi str_longitude_Delhi str_latitude_Mandi str_longitude_Mandi
  str_mean_latitude str_mean_longitude


lemma html_empty: "generateMapHTML [] = html_without_route"
  by (simp add: generateMapHTML_def html_without_route_def str_coordinates)

lemma html_has_tile_layer:
  "sublist ''L.tileLayer('https://{s}.tile.openstreetmap.org/{z}/{x}/{y}.png'' html_without_route"
  by (simp add: html_without_route_def newline_def sublist_code)

lemma html_has_delhi_marker:
  "sublist ''var delhiMarker = L.marker([28.6139, 77.209]).addTo(map);'' html_without_route"
  by (simp add: html_without_route_def newline_def sublist_code)

lemma html_has_mandi_marker:
  "sublist ''var mandiMarker = L.marker([31.7333, 76.9333]).addTo(map);'' html_without_route"
  by (simp add: html_without_route_def newline_def sublist_code)

lemma html_no_polyline: "\<not> sublist ''polyline'' html_without_route"
  by (simp add: html_without_route_def newline_def sublist_code)

lemma html_no_fitBounds: "\<not> sublist ''fitBounds'' html_without_route"
  by (simp add: html_without_route_def newline_def sublist_code)

lemma html_not_empty: "generateMapHTML cs \<noteq> []"
  by (simp add: generateMapHTML_def newline_def Let_def)

text \<open>
  C4. When the request fails (the promise is rejected, or the response has no route), the
  error is logged and \<open>mapHTML\<close> becomes \<open>generateMapHTML\<close> of the empty list, which the
  component shows in the web view. That document contains the tile layer and the markers of
  Delhi and Mandi, and neither a polyline nor a call of \<open>fitBounds\<close>.
\<close>

theorem fetchRoute_failure_map_without_route:
  "fetchRoute_resume Rejected s
     = s\<lparr>mlog := mlog s @ [ConsoleError], mapHTML := generateMapHTML []\<rparr>
   \<and> fetchRoute_resume (Resolved []) s
     = s\<lparr>mlog := mlog s @ [ConsoleError], mapHTML := generateMapHTML []\<rparr>
   \<and> MapSection_view True (fetchRoute_resume Rejected s) = WebView (generateMapHTML [])
   \<and> sublist ''L.tileLayer('https://{s}.tile.openstreetmap.org/{z}/{x}/{y}.png''
        (generateMapHTML [])
   \<and> sublist ''var delhiMarker = L.marker([28.6139, 77.209]).addTo(map);'' (generateMapHTML [])
   \<and> sublist ''var mandiMarker = L.marker([31.7333, 76.9333]).addTo(map);'' (generateMapHTML [])
   \<and> \<not> sublist ''polyline'' (generateMapHTML [])
   \<and> \<not> sublist ''fitBounds'' (generateMapHTML [])"
  using html_has_tile_layer html_has_delhi_marker html_has_mandi_marker
    html_no_polyline html_no_fitBounds html_not_empty [of "[]"]
  by (simp add: MapSection_view_def html_empty)

theorem fetchRoute_failure_map_without_route_witness:
  "mapHTML (map_run [Render True, Settle Rejected] MapSection_init) = html_without_route
   \<and> mlog (map_run [Render True, Settle Rejected] MapSection_init)
       = [HttpGet route_url, ConsoleError]
   \<and> \<not> sublist ''polyline'' (mapHTML (map_run [Render True, Settle Rejected] MapSection_init))"
  using fetchRoute_failure_map_without_route [of "fetchRoute_request (MapSection_init\<lparr>deps := Some True\<rparr>)\<lparr>inflight := 0\<rparr>"]
  by (simp add: map_run_def MapSection_init_def MapSection_render_def effect_def
      fetchRoute_request_def rerender_def html_empty)

lemma rerender_same: "rerender s = s"
  by (simp add: rerender_def MapSection_render_def split: option.splits)

lemma requests_append: "requests (xs @ ys) = requests xs @ requests ys"
  by (induction xs rule: requests.induct) simp_all

lemma requests_resume: "requests (mlog (fetchRoute_resume r s)) = requests (mlog s)"
  by (cases "(r, s)" rule: fetchRoute_resume.cases) (simp_all add: requests_append)

lemma deps_resume: "deps (fetchRoute_resume r s) = deps s"
  by (cases "(r, s)" rule: fetchRoute_resume.cases) simp_all

lemma requests_settle: "requests (mlog (map_step (Settle r) s)) = requests (mlog s)"
  by (simp add: rerender_same requests_resume)

lemma deps_settle: "deps (map_step (Settle r) s) = deps s"
  by (simp add: rerender_same deps_resume)

lemma requests_render:
  "requests (mlog (map_step (Render b) s))
     = requests (mlog s) @ (if b \<and> deps s \<noteq> Some True then [route_url] else [])"
  by (cases b) (auto simp: MapSection_render_def effect_def fetchRoute_request_def requests_append)

lemma deps_render: "deps (map_step (Render b) s) = Some b"
  by (simp add: MapSection_render_def effect_def fetchRoute_request_def)

lemma requests_run:
  "requests (mlog (map_run evs s))
     = requests (mlog s) @ replicate (rising (deps s = Some True) (renders evs)) route_url"
  unfolding map_run_def
proof (induction evs arbitrary: s)
  case Nil
  show ?case by simp
next
  case (Cons ev evs)
  show ?case
  proof (cases ev)
    case (Render b)
    have "requests (mlog (fold map_step evs (map_step (Render b) s)))
        = requests (mlog (map_step (Render b) s))
          @ replicate (rising b (renders evs)) route_url"
      by (simp only: Cons.IH deps_render option.inject simp_thms)
    then show ?thesis
      unfolding Render by (simp only: fold_simps requests_render) (simp add: replicate_add)
  next
    case (Settle r)
    have "requests (mlog (fold map_step evs (map_step (Settle r) s)))
        = requests (mlog s) @ replicate (rising (deps s = Some True) (renders evs)) route_url"
      by (simp only: Cons.IH deps_settle requests_settle)
    then show ?thesis
      unfolding Settle by simp
  qed
qed

text \<open>
  C5. Over any sequence of renders and settled requests from the mounting of the component,
  the requests sent are one GET of the route URL per change of \<open>showResults\<close> from false
  to true (the first render with \<open>showResults\<close> true counts as such a change), and nothing
  else: a request that settles, failed or not, sends no request; a render with
  \<open>showResults\<close> false sends none; a render with \<open>showResults\<close> true sends one unless
  \<open>showResults\<close> was already true at the previous render, whether or not an earlier request
  is still under way.
\<close>

theorem MapSection_one_request_per_rising_edge:
  "requests (mlog (map_run evs MapSection_init))
     = replicate (rising False (renders evs)) route_url
   \<and> requests (mlog (map_step (Settle r) s)) = requests (mlog s)
   \<and> requests (mlog (map_step (Render False) s)) = requests (mlog s)
   \<and> requests (mlog (map_step (Render True) s))
       = requests (mlog s) @ (if deps s = Some True then [] else [route_url])"
  using requests_run [of evs MapSection_init] requests_settle [of r s]
    requests_render [of False s] requests_render [of True s]
  by (simp add: MapSection_init_def)

theorem MapSection_one_request_per_rising_edge_witness:
  "requests (mlog (map_run
      [Render False, Render True, Settle Rejected, Render True, Render False, Render True,
       Render False, Render True, Settle Rejected, Settle (Resolved [])] MapSection_init))
   = [route_url, route_url, route_url]"
  using MapSection_one_request_per_rising_edge
    [of "[Render False, Render True, Settle Rejected, Render True, Render False, Render True,
          Render False, Render True, Settle Rejected, Settle (Resolved [])]"]
  by (simp add: numeral_3_eq_3)



subsection \<open>TravelNewsScreen\<close>

lemma filter_by_index:
  "map ((!) xs) (filter (\<lambda>i. P (xs ! i)) [0..<length xs]) = filter P xs"
proof -
  have "filter P (map ((!) xs) [0..<length xs])
      = map ((!) xs) (filter (P \<circ> (!) xs) [0..<length xs])"
    by (rule filter_map)
  then show ?thesis
    by (simp add: map_nth comp_def)
qed

lemma ids_of_category:
  "map f (filter (\<lambda>x. g x = c) xs)
     = map fst (filter (\<lambda>p. snd p = c) (map (\<lambda>x. (f x, g x)) xs))"
  by (induction xs) simp_all

lemma news_index:
  "map (\<lambda>x. (id' x, category x)) newsData
     = [(1, ''environment''), (2, ''environment''), (3, ''weather''), (4, ''safety''),
        (5, ''traffic''), (6, ''environment'')]"
  by (simp add: newsData_def)

lemma length_newsData: "length newsData = 6"
  by (simp add: newsData_def)

text \<open>
  C3. \<open>newsData\<close> has six elements. For \<open>selectedCategory\<close> equal to \<open>all\<close> the list
  \<open>filteredNews\<close> is \<open>newsData\<close> itself. For every other value it consists of the elements
  of \<open>newsData\<close> whose \<open>category\<close> is \<open>selectedCategory\<close>, taken by increasing index: the
  same elements, each as often as in \<open>newsData\<close>, in the original order.
\<close>

theorem filteredNews_by_category:
  "length newsData = 6
   \<and> filteredNews ''all'' = newsData
   \<and> (selectedCategory \<noteq> ''all'' \<longrightarrow>
        filteredNews selectedCategory
          = map ((!) newsData)
              (filter (\<lambda>i. category (newsData ! i) = selectedCategory) [0..<length newsData])
        \<and> set (filteredNews selectedCategory)
          = {item \<in> set newsData. category item = selectedCategory}
        \<and> subseq (filteredNews selectedCategory) newsData)"
proof -
  have "filteredNews ''all'' = newsData"
    by (simp add: filteredNews_def)
  moreover have "filteredNews selectedCategory
      = map ((!) newsData)
          (filter (\<lambda>i. category (newsData ! i) = selectedCategory) [0..<length newsData])"
    if "selectedCategory \<noteq> ''all''"
    using that by (simp only: filteredNews_def if_False) (rule filter_by_index [symmetric])
  moreover have "set (filteredNews selectedCategory)
      = {item \<in> set newsData. category item = selectedCategory}
      \<and> subseq (filteredNews selectedCategory) newsData"
    if "selectedCategory \<noteq> ''all''"
    using that by (simp add: filteredNews_def)
  ultimately show ?thesis
    using length_newsData by blast
qed

theorem filteredNews_by_category_witness:
  "map id' (filteredNews ''environment'') = [1, 2, 6]
   \<and> map id' (filteredNews ''weather'') = [3]
   \<and> map id' (filteredNews ''safety'') = [4]
   \<and> map id' (filteredNews ''traffic'') = [5]
   \<and> map id' (filteredNews ''all'') = [1, 2, 3, 4, 5, 6]"
proof -
  have by_index: "map id' (filteredNews c)
      = map fst (filter (\<lambda>p. snd p = c) (map (\<lambda>x. (id' x, category x)) newsData))"
    if "c \<noteq> ''all''" for c
  proof -
    from that filteredNews_by_category [of c]
    have "filteredNews c
      = map ((!) newsData) (filter (\<lambda>i. category (newsData ! i) = c) [0..<length newsData])"
      by blast
    then have "filteredNews c = filter (\<lambda>item. category item = c) newsData"
      using filter_by_index [where xs = newsData and P = "\<lambda>item. category item = c"]
      by simp
    then show ?thesis
      by (simp only: ids_of_category [of id' category c newsData])
  qed
  have "map id' (filteredNews ''all'') = map fst (map (\<lambda>x. (id' x, category x)) newsData)"
    using filteredNews_by_category [of "''all''", THEN conjunct2, THEN conjunct1]
    by (simp add: comp_def)
  then show ?thesis
    by (simp add: by_index news_index del: map_map)
qed

subsection \<open>SettingsScreen\<close>

text \<open>
  C9. For every settings state with the seven keys and every key among them,
  \<open>handleToggle\<close> negates the boolean at that key and leaves the value at every other key as
  it was; the keys stay the same, and a second toggle of the same key gives the first state
  back.
\<close>

theorem handleToggle_negates_one_key:
  assumes "dom prev = set settings_keys" and "setting \<in> set settings_keys"
  shows "prev setting \<noteq> None
       \<and> handleToggle setting prev setting = map_option Not (prev setting)
       \<and> (\<forall>k. k \<noteq> setting \<longrightarrow> handleToggle setting prev k = prev k)
       \<and> dom (handleToggle setting prev) = set settings_keys
       \<and> handleToggle setting (handleToggle setting prev) = prev"
proof -
  from assms have "setting \<in> dom prev" by simp
  then obtain b where b: "prev setting = Some b" by blast
  have twice: "handleToggle setting (handleToggle setting prev) = prev"
    by (rule ext) (simp add: handleToggle_def js_not_def b)
  have keys: "dom (handleToggle setting prev) = set settings_keys"
    using assms by (auto simp: handleToggle_def)
  from b twice keys show ?thesis
    by (simp add: handleToggle_def js_not_def)
qed

theorem handleToggle_negates_one_key_witness:
  "handleToggle ''darkMode'' settings_init ''darkMode'' = Some True
   \<and> handleToggle ''darkMode'' settings_init ''dataUsage'' = Some False
   \<and> handleToggle ''darkMode'' settings_init ''notifications'' = Some True
   \<and> handleToggle ''darkMode'' (handleToggle ''darkMode'' settings_init) = settings_init"
proof -
  have keys: "dom settings_init = set settings_keys"
    by (simp add: settings_init_def settings_keys_def insert_commute)
  have key: "''darkMode'' \<in> set settings_keys"
    by (simp add: settings_keys_def)
  show ?thesis
    using handleToggle_negates_one_key [OF keys key]
    by (simp add: settings_init_def)
qed

subsection \<open>The standalone solver\<close>

lemma abs_smod_le: "\<bar>m smod n\<bar> \<le> \<bar>m :: int\<bar>"
proof -
  have nonneg: "0 \<le> \<bar>m\<bar> mod \<bar>n\<bar>"
    by (cases "n = 0") simp_all
  then have "\<bar>m smod n\<bar> = \<bar>m\<bar> mod \<bar>n\<bar>"
    by (cases "m = 0") (simp_all add: signed_modulo_int_def abs_mult)
  also have "\<dots> \<le> \<bar>m\<bar>"
    by (rule zmod_le_nonneg_dividend) simp
  finally show ?thesis .
qed

lemma std_gcd_defined:
  "\<bar>m\<bar> \<le> INT_MAX \<Longrightarrow> \<bar>n\<bar> \<le> INT_MAX \<Longrightarrow> \<exists>g. std_gcd m n = Inr g"
proof (induction m n rule: std_gcd.induct)
  case (1 m n)
  show ?case
  proof (cases "n = 0")
    case True
    then show ?thesis
      by (subst std_gcd.simps) simp
  next
    case False
    from "1.prems" have no_min: "m \<noteq> INT_MIN"
      by (auto simp: INT_MAX_def INT_MIN_def)
    have "\<bar>m smod n\<bar> \<le> INT_MAX"
      using abs_smod_le [of m n] "1.prems"(1) by linarith
    with False no_min "1.prems" have "\<exists>g. std_gcd n (m smod n) = Inr g"
      using "1.IH" by simp
    with False no_min show ?thesis
      by (subst std_gcd.simps) simp
  qed
qed

lemma std_gcd_nonneg: "0 \<le> m \<Longrightarrow> 0 \<le> n \<Longrightarrow> std_gcd m n = Inr (gcd m n)"
proof (induction m n rule: std_gcd.induct)
  case (1 m n)
  show ?case
  proof (cases "n = 0")
    case True
    with "1.prems" show ?thesis
      by (subst std_gcd.simps) simp
  next
    case False
    from "1.prems" have no_min: "m \<noteq> INT_MIN"
      by (simp add: INT_MIN_def)
    from False "1.prems" have smod: "m smod n = m mod n"
      by (simp add: signed_modulo_int_def sgn_if)
    with False no_min "1.prems" have "std_gcd n (m smod n) = Inr (gcd n (m mod n))"
      using "1.IH" by simp
    also have "gcd n (m mod n) = gcd m n"
      by (metis gcd_red_int)
    finally show ?thesis
      using False no_min by (subst std_gcd.simps) simp
  qed
qed

lemma common_divisor_nonneg:
  "0 \<le> x \<Longrightarrow> 0 \<le> y \<Longrightarrow> common_divisor x y \<longleftrightarrow> 1 < gcd x y"
  by (simp add: common_divisor_def std_gcd_nonneg)

lemma pairs_inner_result:
  assumes "\<forall>x\<in>set a. \<bar>x\<bar> \<le> INT_MAX" and "i < length a"
  shows "pairs_inner a i j ok
     = Inr (ok \<or> (\<exists>k. j \<le> k \<and> k < length a \<and> common_divisor (a ! i) (a ! k)))"
  using assms
proof (induction a i j ok rule: pairs_inner.induct)
  case (1 a i j ok)
  show ?case
  proof (cases "j < length a \<and> \<not> ok")
    case True
    with "1.prems" obtain g where g: "std_gcd (a ! i) (a ! j) = Inr g"
      using std_gcd_defined [of "a ! i" "a ! j"] by auto
    then have cd: "common_divisor (a ! i) (a ! j) \<longleftrightarrow> g > 1"
      by (simp add: common_divisor_def)
    have split: "(\<exists>k. j \<le> k \<and> k < length a \<and> common_divisor (a ! i) (a ! k)) \<longleftrightarrow>
        common_divisor (a ! i) (a ! j)
        \<or> (\<exists>k. j + 1 \<le> k \<and> k < length a \<and> common_divisor (a ! i) (a ! k))"
      using True by (metis Suc_eq_plus1 Suc_leI le_neq_implies_less order_refl Suc_leD)
    from True g have "pairs_inner a i j ok
        = pairs_inner a i (j + 1) (if g > 1 then True else ok)"
      by (subst pairs_inner.simps) simp
    also have "\<dots> = Inr ((if g > 1 then True else ok)
        \<or> (\<exists>k. j + 1 \<le> k \<and> k < length a \<and> common_divisor (a ! i) (a ! k)))"
      using True g "1.prems" by (intro "1.IH") simp_all
    finally show ?thesis
      using True split cd by auto
  next
    case False
    then have stop: "pairs_inner a i j ok = Inr ok"
      by (subst pairs_inner.simps) (simp only: if_False)
    from False have "ok \<or> \<not> (\<exists>k. j \<le> k \<and> k < length a \<and> common_divisor (a ! i) (a ! k))"
      by auto
    then show ?thesis
      unfolding stop by blast
  qed
qed

lemma pairs_outer_result:
  assumes "\<forall>x\<in>set a. \<bar>x\<bar> \<le> INT_MAX"
  shows "pairs_outer a i ok
     = Inr (ok \<or> (\<exists>k l. i \<le> k \<and> k < l \<and> l < length a \<and> common_divisor (a ! k) (a ! l)))"
  using assms
proof (induction a i ok rule: pairs_outer.induct)
  case (1 a i ok)
  show ?case
  proof (cases "i < length a \<and> \<not> ok")
    case True
    have split: "(\<exists>k l. i \<le> k \<and> k < l \<and> l < length a \<and> common_divisor (a ! k) (a ! l)) \<longleftrightarrow>
        (\<exists>l. i + 1 \<le> l \<and> l < length a \<and> common_divisor (a ! i) (a ! l))
        \<or> (\<exists>k l. i + 1 \<le> k \<and> k < l \<and> l < length a \<and> common_divisor (a ! k) (a ! l))"
      (is "?L \<longleftrightarrow> ?A \<or> ?B")
    proof
      assume ?L
      then obtain k l where kl: "i \<le> k" "k < l" "l < length a" "common_divisor (a ! k) (a ! l)"
        by blast
      show "?A \<or> ?B"
      proof (cases "k = i")
        case True
        with kl have "i + 1 \<le> l \<and> l < length a \<and> common_divisor (a ! i) (a ! l)"
          by simp
        then have ?A by blast
        then show ?thesis ..
      next
        case False
        with kl have "i + 1 \<le> k" by simp
        with kl have ?B by blast
        then show ?thesis ..
      qed
    next
      assume "?A \<or> ?B"
      then show ?L
      proof
        assume ?A
        then obtain l where "i + 1 \<le> l" "l < length a" "common_divisor (a ! i) (a ! l)"
          by blast
        then have "i \<le> i \<and> i < l \<and> l < length a \<and> common_divisor (a ! i) (a ! l)"
          by simp
        then show ?L by blast
      next
        assume ?B
        then obtain k l where "i + 1 \<le> k" "k < l" "l < length a" "common_divisor (a ! k) (a ! l)"
          by blast
        then have "i \<le> k \<and> k < l \<and> l < length a \<and> common_divisor (a ! k) (a ! l)"
          by simp
        then show ?L by blast
      qed
    qed
    from True "1.prems" have inner: "pairs_inner a i (i + 1) ok
        = Inr (ok \<or> (\<exists>l. i + 1 \<le> l \<and> l < length a \<and> common_divisor (a ! i) (a ! l)))"
      by (simp add: pairs_inner_result)
    with True have "pairs_outer a i ok = pairs_outer a (i + 1)
        (ok \<or> (\<exists>l. i + 1 \<le> l \<and> l < length a \<and> common_divisor (a ! i) (a ! l)))"
      by (subst pairs_outer.simps) simp
    also have "\<dots> = Inr ((ok \<or> (\<exists>l. i + 1 \<le> l \<and> l < length a \<and> common_divisor (a ! i) (a ! l)))
        \<or> (\<exists>k l. i + 1 \<le> k \<and> k < l \<and> l < length a \<and> common_divisor (a ! k) (a ! l)))"
      using True inner "1.prems" by (intro "1.IH") simp_all
    finally show ?thesis
      using True split by simp
  next
    case False
    then have stop: "pairs_outer a i ok = Inr ok"
      by (subst pairs_outer.simps) (simp only: if_False)
    from False have "ok \<or> \<not> (\<exists>k l. i \<le> k \<and> k < l \<and> l < length a
        \<and> common_divisor (a ! k) (a ! l))"
      by auto
    then show ?thesis
      unfolding stop by blast
  qed
qed

lemma minimize_loop_iterations:
  "snd (minimize_loop p ans iterations f) = iterations + (MAX_val + 1 - p)"
proof (induction p ans iterations f rule: minimize_loop.induct)
  case (1 p ans iterations f)
  show ?case
  proof (cases "p \<le> MAX_val")
    case True
    then show ?thesis
      using "1.IH" by (subst minimize_loop.simps) (simp add: Let_def)
  next
    case False
    then show ?thesis
      by (subst minimize_loop.simps) simp
  qed
qed

text \<open>
  C10, as amended. Let the values of the array be of type \<open>int\<close>, \<open>INT_MIN\<close> excepted. If
  the array has two elements at indices \<open>i < j\<close> for which the test
  \<open>__gcd(a[i], a[j]) > 1\<close> of the program holds, or which are both non-negative and have a
  greatest common divisor above 1, the program prints 0 for the test case and executes no
  iteration of the loop over \<open>p\<close>. (A test case for which the search for a pair ends
  without success, and whose values fit the table, runs all \<open>MAX - 1\<close> iterations of the
  loop.)
\<close>

theorem solver_prints_zero_on_common_divisor:
  assumes "\<forall>x\<in>set a. \<bar>x\<bar> \<le> INT_MAX"
    and "i < j" and "j < length a"
    and "common_divisor (a ! i) (a ! j) \<or> (0 \<le> a ! i \<and> 0 \<le> a ! j \<and> 1 < gcd (a ! i) (a ! j))"
  shows "solve_case a = Inr (0, 0)
       \<and> solver_main [(a, b)] = [Inr 0]
       \<and> (\<forall>a' v n. pairs_outer a' 0 False = Inr False \<and> solve_case a' = Inr (v, n)
            \<longrightarrow> n = MAX_val - 1)"
proof -
  from assms(4) have "common_divisor (a ! i) (a ! j)"
    using common_divisor_nonneg by blast
  with assms(2,3) have "pairs_outer a 0 False = Inr True"
    unfolding pairs_outer_result [OF assms(1)] by blast
  then have zero: "solve_case a = Inr (0, 0)"
    by (simp add: solve_case_def)
  then have out: "solver_main [(a, b)] = [Inr 0]"
    by (simp add: solver_main_def)
  have full: "n = MAX_val - 1"
    if "pairs_outer a' 0 False = Inr False" "solve_case a' = Inr (v, n)" for a' v n
  proof -
    from that obtain f where "minimize_loop 2 INT_MAX 0 f = (v, n)"
      by (auto simp: solve_case_def split: sum.splits)
    then have "n = snd (minimize_loop 2 INT_MAX 0 f)"
      by simp
    then show ?thesis
      by (simp add: minimize_loop_iterations)
  qed
  from zero out full show ?thesis
    by blast
qed

theorem solver_prints_zero_on_common_divisor_witness:
  "\<bar>4\<bar> \<le> INT_MAX \<and> \<bar>9\<bar> \<le> INT_MAX \<and> \<bar>6\<bar> \<le> INT_MAX
   \<and> (0::nat) < 2 \<and> 2 < length [4, 9, 6 :: int]
   \<and> 1 < gcd ([4, 9, 6 :: int] ! 0) ([4, 9, 6] ! 2)
   \<and> solve_case [4, 9, 6] = Inr (0, 0)
   \<and> solver_main [([4, 9, 6], [1, 1, 1])] = [Inr 0]"
proof -
  have range: "\<forall>x\<in>set [4, 9, 6 :: int]. \<bar>x\<bar> \<le> INT_MAX"
    by (simp add: INT_MAX_def)
  have g: "1 < gcd ([4, 9, 6 :: int] ! 0) ([4, 9, 6] ! 2)"
    by (simp add: gcd_red_int [of 4 6] gcd_red_int [of 6 4])
  have "solve_case [4, 9, 6] = Inr (0, 0) \<and> solver_main [([4, 9, 6], [1, 1, 1])] = [Inr 0]"
    using solver_prints_zero_on_common_divisor [OF range, of 0 2 "[1, 1, 1]"] g
    by simp
  with range g show ?thesis by (simp add: INT_MAX_def)
qed

lemma std_gcd_4_m6: "std_gcd 4 (- 6) = Inr (- 2)"
proof -
  have "std_gcd 4 (- 6) = std_gcd (- 6) 4"
    by (subst std_gcd.simps) (simp add: signed_modulo_int_def INT_MIN_def)
  also have "\<dots> = std_gcd 4 (- 2)"
    by (subst std_gcd.simps) (simp add: signed_modulo_int_def INT_MIN_def)
  also have "\<dots> = std_gcd (- 2) 0"
    by (subst std_gcd.simps) (simp add: signed_modulo_int_def INT_MIN_def)
  also have "\<dots> = Inr (- 2)"
    by (subst std_gcd.simps) simp
  finally show ?thesis .
qed

lemma pairs_outer_4_m6: "pairs_outer [4, - 6] 0 False = Inr False"
proof -
  have inner2: "pairs_inner [4, - 6] 0 (Suc (Suc 0)) False = Inr False"
    by (subst pairs_inner.simps) simp
  have inner1: "pairs_inner [4, - 6] 0 (Suc 0) False = Inr False"
    by (subst pairs_inner.simps) (simp add: std_gcd_4_m6 inner2)
  have inner2': "pairs_inner [4, - 6] (Suc 0) (Suc (Suc 0)) False = Inr False"
    by (subst pairs_inner.simps) simp
  have outer2: "pairs_outer [4, - 6] (Suc (Suc 0)) False = Inr False"
    by (subst pairs_outer.simps) simp
  have outer1: "pairs_outer [4, - 6] (Suc 0) False = Inr False"
    by (subst pairs_outer.simps) (simp add: inner2' outer2)
  show ?thesis
    by (subst pairs_outer.simps) (simp add: inner1 outer1)
qed

lemma count_values_4_m6: "count_values [4, - 6] (replicate (MAX_val + 2) 0) = Inl OutOfBounds"
proof -
  have "(4::nat) < MAX_val + 2"
    by (simp add: MAX_val_def)
  then show ?thesis
    by (simp del: replicate_Suc)
qed

lemma solve_case_4_m6: "solve_case [4, - 6] = Inl OutOfBounds"
  by (simp only: solve_case_def pairs_outer_4_m6 count_values_4_m6 sum.case if_False)

lemma solve_case_min: "solve_case [- 2147483648, - 1, 4, 6] = Inl Overflow"
proof -
  have g: "std_gcd (- 2147483648) (- 1) = Inl Overflow"
    by (subst std_gcd.simps) (simp add: INT_MIN_def)
  have inner: "pairs_inner [- 2147483648, - 1, 4, 6] 0 (Suc 0) False = Inl Overflow"
    by (subst pairs_inner.simps) (simp add: g)
  have "pairs_outer [- 2147483648, - 1, 4, 6] 0 False = Inl Overflow"
    by (subst pairs_outer.simps) (simp add: inner)
  then show ?thesis
    by (simp add: solve_case_def)
qed

text \<open>
  C10 as stated fails where an element is negative. For the array \<open>4, -6\<close> the greatest
  common divisor is 2, but \<open>__gcd\<close> returns \<open>-2\<close>: the pair is not found and the program
  goes on to \<open>f[-6]++\<close>, outside the table. For the array \<open>INT_MIN, -1, 4, 6\<close> the pair
  \<open>4, 6\<close> is never reached: the remainder of \<open>INT_MIN\<close> by \<open>-1\<close> comes first.
\<close>

theorem solver_negative_values_counterexample:
  "(0::nat) < 1 \<and> 1 < length [4, - 6 :: int]
   \<and> 1 < gcd ([4, - 6 :: int] ! 0) ([4, - 6] ! 1)
   \<and> solve_case [4, - 6] = Inl OutOfBounds
   \<and> solver_main [([4, - 6], [1, 1])] = [Inl OutOfBounds]
   \<and> (2::nat) < 3 \<and> 3 < length [- 2147483648, - 1, 4, 6 :: int]
   \<and> 1 < gcd ([- 2147483648, - 1, 4, 6 :: int] ! 2) ([- 2147483648, - 1, 4, 6] ! 3)
   \<and> solve_case [- 2147483648, - 1, 4, 6] = Inl Overflow"
proof -
  have a: "1 < gcd (4::int) (- 6)"
    by (simp add: gcd_red_int [of 4 6] gcd_red_int [of 6 4])
  have b: "1 < gcd (4::int) 6"
    by (simp add: gcd_red_int [of 4 6] gcd_red_int [of 6 4])
  show ?thesis
    using a b by (simp add: solve_case_4_m6 solve_case_min solver_main_def)
qed

end
